theory Spec2Isabelle
  imports Complex_Main
begin

section \<open>Speaker diarization bridge: data model\<close>

text \<open>
  The development embeds \<^verbatim>\<open>src-tauri/python/diarization_inference.py\<close>: the method
  \<^verbatim>\<open>SpeakerDiarization.diarize_audio\<close>, its helper \<^verbatim>\<open>_extract_speaker_embedding\<close> and
  the comparison \<^verbatim>\<open>compare_speakers\<close>.

  In \<^verbatim>\<open>diarize_audio\<close> the times are reals: the differences and sums of the durations
  are exact there. \<^verbatim>\<open>compare_speakers\<close> is modelled in IEEE binary64 arithmetic: every
  product, sum, quotient and square root is rounded to the nearest double, ties to even,
  it overflows to an infinity and underflows to zero, and a division by zero yields
  \<open>nan\<close> or an infinity instead of raising, as numpy does.

  The collaborators outside the file are parameters of the model:
  \<^item> the diarization pipeline, whose \<^verbatim>\<open>itertracks(yield_label=True)\<close> yields the tracks;
  \<^item> \<^verbatim>\<open>torchaudio.load\<close>, which yields a waveform (channels of samples) and a sample rate,
    or raises;
  \<^item> the embedding model, which maps a tensor to an embedding, or raises;
  \<^item> the iteration order of a Python \<^verbatim>\<open>set\<close> of strings, which depends on string hashes.
\<close>

datatype py_error = ValueError

text \<open>One item of \<^verbatim>\<open>diarization.itertracks(yield_label=True)\<close>: the turn and its label.\<close>

record track =
  turn_start :: real
  turn_end :: real
  speaker :: string

text \<open>The dictionary appended to \<^verbatim>\<open>segments\<close>.\<close>

record segment =
  speaker_id :: string
  start :: real
  end_ :: real
  duration :: real

text \<open>The dictionary stored per speaker in \<^verbatim>\<open>speaker_stats\<close>.\<close>

record speaker_stat =
  total_duration :: real
  num_segments :: nat
  embedding :: "real list"

text \<open>
  The returned dictionary. \<^verbatim>\<open>speaker_stats\<close> is a Python dict, which iterates in insertion
  order, so it is an association list here.
\<close>

record diarization =
  segments :: "segment list"
  speakers :: "string list"
  num_speakers :: nat
  speaker_stats :: "(string \<times> speaker_stat) list"

type_synonym waveform = "real list list"

section \<open>Python primitives\<close>

text \<open>\<^verbatim>\<open>int(x)\<close> on a float truncates towards zero.\<close>

definition py_int :: "real \<Rightarrow> int" where
  "py_int x = (if 0 \<le> x then \<lfloor>x\<rfloor> else \<lceil>x\<rceil>)"

text \<open>
  The slice \<^verbatim>\<open>xs[i:j]\<close>: a negative index counts from the end, and both bounds are clamped
  to the length.
\<close>

definition slice_index :: "nat \<Rightarrow> int \<Rightarrow> nat" where
  "slice_index n i = (if i < 0 then nat (max 0 (int n + i)) else min (nat i) n)"

definition py_slice :: "'a list \<Rightarrow> int \<Rightarrow> int \<Rightarrow> 'a list" where
  "py_slice xs i j =
     (let lo = slice_index (length xs) i; hi = slice_index (length xs) j
      in take (hi - lo) (drop lo xs))"

text \<open>
  \<^verbatim>\<open>d[k] = v\<close> on an insertion-ordered dict: an existing key keeps its position, a new key
  goes to the end.
\<close>

fun dict_set :: "('k \<times> 'v) list \<Rightarrow> 'k \<Rightarrow> 'v \<Rightarrow> ('k \<times> 'v) list" where
  "dict_set [] k v = [(k, v)]"
| "dict_set (p # ps) k v = (if fst p = k then (k, v) # ps else p # dict_set ps k v)"

text \<open>
  \<^verbatim>\<open>list(set(xs))\<close> lists every element of \<open>xs\<close> once, in an order fixed by the hashes of
  the elements. A function is a possible iteration order when it does so on every list.
\<close>

definition set_iteration :: "(string list \<Rightarrow> string list) \<Rightarrow> bool" where
  "set_iteration list_set = (\<forall>xs. distinct (list_set xs) \<and> set (list_set xs) = set xs)"

section \<open>Embedding extraction\<close>

text \<open>\<^verbatim>\<open>torch.mean(segment, dim=0, keepdim=True)\<close> on a tensor of at least one channel.\<close>

definition mean_dim0 :: "waveform \<Rightarrow> waveform" where
  "mean_dim0 seg =
     [map (\<lambda>i. sum_list (map (\<lambda>ch. ch ! i) seg) / real (length seg))
        [0 ..< length (hd seg)]]"

text \<open>
  \<^verbatim>\<open>_extract_speaker_embedding\<close>. \<open>load\<close> is the outcome of \<^verbatim>\<open>torchaudio.load(audio_path)\<close>
  and \<open>embedding_model\<close> the call of \<^verbatim>\<open>self.embedding_model\<close>; \<open>None\<close> stands for a raised
  exception, which the \<^verbatim>\<open>except\<close> clause turns into the result \<^verbatim>\<open>None\<close>.
\<close>

definition extract_speaker_embedding ::
  "(waveform \<times> int) option \<Rightarrow> (waveform \<Rightarrow> real list option) \<Rightarrow> real \<Rightarrow> real
     \<Rightarrow> real list option" where
  "extract_speaker_embedding load embedding_model start_time end_time =
     (case load of
        None \<Rightarrow> None
      | Some (wave, sample_rate) \<Rightarrow>
          (let start_sample = py_int (start_time * real_of_int sample_rate);
               end_sample = py_int (end_time * real_of_int sample_rate);
               seg = map (\<lambda>ch. py_slice ch start_sample end_sample) wave;
               seg = (if length seg > 1 then mean_dim0 seg else seg)
           in embedding_model seg))"

section \<open>Diarization\<close>

text \<open>
  The state of the first loop of \<^verbatim>\<open>diarize_audio\<close>: the two accumulators of the source, and
  \<open>extract_calls\<close>, a log of the tracks for which \<^verbatim>\<open>_extract_speaker_embedding\<close> has been
  called, in call order.
\<close>

record loop_state =
  segs :: "segment list"
  speaker_embeddings :: "string \<rightharpoonup> real list"
  extract_calls :: "track list"

definition init_state :: loop_state where
  "init_state = \<lparr>segs = [], speaker_embeddings = Map.empty, extract_calls = []\<rparr>"

definition mk_segment :: "track \<Rightarrow> segment" where
  "mk_segment t =
     \<lparr>speaker_id = speaker t, start = turn_start t, end_ = turn_end t,
      duration = turn_end t - turn_start t\<rparr>"

text \<open>One iteration of the loop over \<^verbatim>\<open>itertracks\<close>.\<close>

definition loop_step :: "(real \<Rightarrow> real \<Rightarrow> real list option) \<Rightarrow> loop_state \<Rightarrow> track \<Rightarrow> loop_state" where
  "loop_step extract st t =
     (let st1 = st\<lparr>segs := segs st @ [mk_segment t]\<rparr>
      in if speaker_embeddings st1 (speaker t) = None
         then (let st2 = st1\<lparr>extract_calls := extract_calls st1 @ [t]\<rparr>
               in case extract (turn_start t) (turn_end t) of
                    None \<Rightarrow> st2
                  | Some e \<Rightarrow>
                      st2\<lparr>speaker_embeddings := (speaker_embeddings st2)(speaker t \<mapsto> e)\<rparr>)
         else st1)"

definition run_loop :: "(real \<Rightarrow> real \<Rightarrow> real list option) \<Rightarrow> track list \<Rightarrow> loop_state" where
  "run_loop extract tracks = foldl (loop_step extract) init_state tracks"

text \<open>The value stored under \<^verbatim>\<open>speaker_stats[speaker]\<close> in the second loop.\<close>

definition stat_of :: "segment list \<Rightarrow> (string \<rightharpoonup> real list) \<Rightarrow> string \<Rightarrow> speaker_stat" where
  "stat_of sgs embs sp =
     (let speaker_segments = filter (\<lambda>s. speaker_id s = sp) sgs;
          total_time = sum_list (map duration speaker_segments)
      in \<lparr>total_duration = total_time,
          num_segments = length speaker_segments,
          embedding = (case embs sp of None \<Rightarrow> [] | Some e \<Rightarrow> e)\<rparr>)"

text \<open>
  \<^verbatim>\<open>diarize_audio\<close>, from the tracks of the pipeline to the returned dictionary. The source
  has no \<^verbatim>\<open>raise\<close> and catches every exception of the extraction, so the result is always
  \<open>Inr\<close>.
\<close>

definition diarize_audio ::
  "(string list \<Rightarrow> string list) \<Rightarrow> (waveform \<times> int) option \<Rightarrow> (waveform \<Rightarrow> real list option)
     \<Rightarrow> track list \<Rightarrow> py_error + diarization" where
  "diarize_audio list_set load embedding_model tracks =
     (let st = run_loop (extract_speaker_embedding load embedding_model) tracks;
          unique_speakers = list_set (map speaker_id (segs st));
          stats = foldl (\<lambda>d sp. dict_set d sp (stat_of (segs st) (speaker_embeddings st) sp))
                    [] unique_speakers
      in Inr \<lparr>segments = segs st, speakers = unique_speakers,
              num_speakers = length unique_speakers, speaker_stats = stats\<rparr>)"

text \<open>The tracks on which \<^verbatim>\<open>diarize_audio\<close> calls \<^verbatim>\<open>_extract_speaker_embedding\<close>, in order.\<close>

definition extraction_calls ::
  "(waveform \<times> int) option \<Rightarrow> (waveform \<Rightarrow> real list option) \<Rightarrow> track list \<Rightarrow> track list" where
  "extraction_calls load embedding_model tracks =
     extract_calls (run_loop (extract_speaker_embedding load embedding_model) tracks)"

section \<open>Binary64 arithmetic\<close>

text \<open>
  A numpy float: a finite number, an infinity or \<open>nan\<close>. The two zeros are one value,
  \<open>Fin 0\<close>; a zero divisor counts as \<open>+0\<close>, which is what the divisors of
  \<^verbatim>\<open>compare_speakers\<close> are, a product of two norms and the constant 2.
\<close>

datatype npfloat = Fin real | PosInf | NegInf | NaN

text \<open>\<open>2\<close> to an integer power.\<close>

definition pow2 :: "int \<Rightarrow> real" where
  "pow2 k = (if 0 \<le> k then 2 ^ nat k else 1 / 2 ^ nat (- k))"

text \<open>Rounding to the nearest integer, a tie going to the even one.\<close>

definition rne :: "real \<Rightarrow> int" where
  "rne x =
     (let f = \<lfloor>x\<rfloor>; d = x - of_int f
      in if d < 1 / 2 then f
         else if 1 / 2 < d then f + 1
         else if even f then f else f + 1)"

text \<open>
  Rounding a real to binary64: 53 significant bits at the binary exponent of the number,
  the exponent not going below \<open>-1022\<close> (so that small numbers are rounded to multiples
  of \<open>2 ^ -1074\<close>, to zero in the end), and an infinity when the rounded number reaches
  \<open>2 ^ 1024\<close>.
\<close>

definition round64 :: "real \<Rightarrow> npfloat" where
  "round64 x =
     (if x = 0 then Fin 0
      else
        (let e = max \<lfloor>log 2 \<bar>x\<bar>\<rfloor> (- 1022);
             q = pow2 (e - 52);
             y = of_int (rne (x / q)) * q
         in if 2 ^ 1024 \<le> \<bar>y\<bar> then (if 0 < x then PosInf else NegInf) else Fin y))"

text \<open>A finite number times an infinity of the given sign.\<close>

definition scaled_inf :: "real \<Rightarrow> bool \<Rightarrow> npfloat" where
  "scaled_inf x positive =
     (if x = 0 then NaN else if (0 < x) = positive then PosInf else NegInf)"

fun fadd :: "npfloat \<Rightarrow> npfloat \<Rightarrow> npfloat" where
  "fadd (Fin x) (Fin y) = round64 (x + y)"
| "fadd (Fin x) PosInf = PosInf"
| "fadd (Fin x) NegInf = NegInf"
| "fadd PosInf (Fin y) = PosInf"
| "fadd NegInf (Fin y) = NegInf"
| "fadd PosInf PosInf = PosInf"
| "fadd NegInf NegInf = NegInf"
| "fadd PosInf NegInf = NaN"
| "fadd NegInf PosInf = NaN"
| "fadd NaN b = NaN"
| "fadd a NaN = NaN"

fun fmul :: "npfloat \<Rightarrow> npfloat \<Rightarrow> npfloat" where
  "fmul (Fin x) (Fin y) = round64 (x * y)"
| "fmul (Fin x) PosInf = scaled_inf x True"
| "fmul (Fin x) NegInf = scaled_inf x False"
| "fmul PosInf (Fin y) = scaled_inf y True"
| "fmul NegInf (Fin y) = scaled_inf y False"
| "fmul PosInf PosInf = PosInf"
| "fmul NegInf NegInf = PosInf"
| "fmul PosInf NegInf = NegInf"
| "fmul NegInf PosInf = NegInf"
| "fmul NaN b = NaN"
| "fmul a NaN = NaN"

text \<open>
  Division: a zero divisor gives \<open>nan\<close> for \<open>0 / 0\<close> and an infinity of the sign of the
  dividend otherwise, with a warning and no exception.
\<close>

fun fdiv :: "npfloat \<Rightarrow> npfloat \<Rightarrow> npfloat" where
  "fdiv (Fin x) (Fin y) =
     (if y = 0 then (if x = 0 then NaN else if 0 < x then PosInf else NegInf)
      else round64 (x / y))"
| "fdiv (Fin x) PosInf = Fin 0"
| "fdiv (Fin x) NegInf = Fin 0"
| "fdiv PosInf (Fin y) = (if y < 0 then NegInf else PosInf)"
| "fdiv NegInf (Fin y) = (if y < 0 then PosInf else NegInf)"
| "fdiv PosInf PosInf = NaN"
| "fdiv NegInf NegInf = NaN"
| "fdiv PosInf NegInf = NaN"
| "fdiv NegInf PosInf = NaN"
| "fdiv NaN b = NaN"
| "fdiv a NaN = NaN"

fun fsqrt :: "npfloat \<Rightarrow> npfloat" where
  "fsqrt (Fin x) = (if x < 0 then NaN else round64 (sqrt x))"
| "fsqrt PosInf = PosInf"
| "fsqrt NegInf = NaN"
| "fsqrt NaN = NaN"

section \<open>Comparison of embeddings\<close>

text \<open>
  An embedding is a one-dimensional array of doubles, a list of the reals they denote.

  \<^verbatim>\<open>np.dot\<close> on two such arrays raises \<^verbatim>\<open>ValueError\<close> when the lengths differ, and is the
  sum of the products of the elements otherwise. Here the products are added one after
  the other from \<open>0.0\<close>, in index order, each product and each sum being rounded. A BLAS
  kernel may add them in another order; none of the results below depends on the order:
  in the inputs that are evaluated every product and every sum is exact, and the proof
  of symmetry uses only that both calls add the same products in the same order.
\<close>

definition dot :: "real list \<Rightarrow> real list \<Rightarrow> npfloat" where
  "dot a b = foldl fadd (Fin 0) (map (\<lambda>(x, y). fmul (Fin x) (Fin y)) (zip a b))"

definition np_dot :: "real list \<Rightarrow> real list \<Rightarrow> py_error + npfloat" where
  "np_dot a b = (if length a \<noteq> length b then Inl ValueError else Inr (dot a b))"

text \<open>
  \<^verbatim>\<open>np.linalg.norm\<close> on a one-dimensional real array is the square root of the dot product
  of the array with itself.
\<close>

definition linalg_norm :: "real list \<Rightarrow> npfloat" where
  "linalg_norm a = fsqrt (dot a a)"

definition compare_speakers :: "real list \<Rightarrow> real list \<Rightarrow> py_error + npfloat" where
  "compare_speakers embedding1 embedding2 =
     (case np_dot embedding1 embedding2 of
        Inl e \<Rightarrow> Inl e
      | Inr dot_product \<Rightarrow>
          (let norm1 = linalg_norm embedding1;
               norm2 = linalg_norm embedding2;
               similarity = fdiv dot_product (fmul norm1 norm2)
           in Inr (fdiv (fadd similarity (Fin 1)) (Fin 2))))"

section \<open>Example inputs\<close>

text \<open>The tracks \<^verbatim>\<open>[("A",0,2), ("B",2,5), ("A",5,6)]\<close>: speaker A comes back after B.\<close>

definition scenario_tracks :: "track list" where
  "scenario_tracks =
     [\<lparr>turn_start = 0, turn_end = 2, speaker = ''A''\<rparr>,
      \<lparr>turn_start = 2, turn_end = 5, speaker = ''B''\<rparr>,
      \<lparr>turn_start = 5, turn_end = 6, speaker = ''A''\<rparr>]"

text \<open>An embedding model that raises on every input.\<close>

definition silent_model :: "waveform \<Rightarrow> real list option" where
  "silent_model w = None"



text \<open>A turn that ends before it starts.\<close>

definition reversed_track :: track where
  "reversed_track = \<lparr>turn_start = 10, turn_end = 4, speaker = ''A''\<rparr>"

text \<open>
  Two turns of one speaker over a waveform of two samples at 1 Hz, and a model that
  raises unless it is given the second sample.
\<close>

definition two_sample_load :: "(waveform \<times> int) option" where
  "two_sample_load = Some ([[1, 2]], 1)"

definition second_sample_model :: "waveform \<Rightarrow> real list option" where
  "second_sample_model w = (if w = [[2]] then Some [7] else None)"

definition retry_tracks :: "track list" where
  "retry_tracks =
     [\<lparr>turn_start = 0, turn_end = 1, speaker = ''A''\<rparr>,
      \<lparr>turn_start = 1, turn_end = 2, speaker = ''A''\<rparr>]"

text \<open>
  A turn of 0.05 s over six seconds of silence sampled at 20 Hz, where 0.1 s is two
  samples, and a model whose embedding is the number of samples of each channel it is
  given.
\<close>

definition short_track :: track where
  "short_track = \<lparr>turn_start = 5, turn_end = 5.05, speaker = ''A''\<rparr>"

definition slow_load :: "(waveform \<times> int) option" where
  "slow_load = Some ([replicate 120 0], 20)"

definition sample_count_model :: "waveform \<Rightarrow> real list option" where
  "sample_count_model w = Some (map (\<lambda>ch. real (length ch)) w)"

section \<open>Notions used in the statements\<close>

text \<open>The elements of a list in the order of their first occurrence.\<close>

fun first_seen :: "'a list \<Rightarrow> 'a list" where
  "first_seen [] = []"
| "first_seen (x # xs) = x # filter (\<lambda>y. y \<noteq> x) (first_seen xs)"

text \<open>The structurally invalid turns of the specification: \<open>end \<le> start\<close> or \<open>start < 0\<close>.\<close>

definition invalid_turn :: "track \<Rightarrow> bool" where
  "invalid_turn t = (turn_end t \<le> turn_start t \<or> turn_start t < 0)"

text \<open>
  Of the turns of one speaker, those on which extraction is tried when it is tried turn
  after turn until it succeeds: the turns on which it fails, up to and including the
  first on which it succeeds.
\<close>

definition attempted :: "(real \<Rightarrow> real \<Rightarrow> real list option) \<Rightarrow> track list \<Rightarrow> track list" where
  "attempted extract ts =
     takeWhile (\<lambda>t. extract (turn_start t) (turn_end t) = None) ts @
     take 1 (dropWhile (\<lambda>t. extract (turn_start t) (turn_end t) = None) ts)"

text \<open>The embedding of the first turn on which extraction succeeds, if there is one.\<close>

definition first_success :: "(real \<Rightarrow> real \<Rightarrow> real list option) \<Rightarrow> track list \<Rightarrow> real list option" where
  "first_success extract ts =
     (case dropWhile (\<lambda>t. extract (turn_start t) (turn_end t) = None) ts of
        [] \<Rightarrow> None
      | t # _ \<Rightarrow> extract (turn_start t) (turn_end t))"

section \<open>The first loop\<close>

lemma segs_loop_step: "segs (loop_step ex st t) = segs st @ [mk_segment t]"
  by (simp add: loop_step_def Let_def split: option.splits)

lemma segs_foldl: "segs (foldl (loop_step ex) st ts) = segs st @ map mk_segment ts"
  by (induction ts arbitrary: st) (simp_all add: segs_loop_step)

lemma segs_run_loop: "segs (run_loop ex ts) = map mk_segment ts"
  by (simp add: run_loop_def segs_foldl init_state_def)

lemma speaker_id_mk_segment: "speaker_id (mk_segment t) = speaker t"
  by (simp add: mk_segment_def)

lemma speaker_id_comp_mk_segment: "speaker_id \<circ> mk_segment = speaker"
  by (simp add: fun_eq_iff speaker_id_mk_segment)

lemma duration_mk_segment: "duration (mk_segment t) = turn_end t - turn_start t"
  by (simp add: mk_segment_def)

lemma filter_mk_segment:
  "filter (\<lambda>s. speaker_id s = sp) (map mk_segment ts) =
   map mk_segment (filter (\<lambda>t. speaker t = sp) ts)"
  by (induction ts) (simp_all add: speaker_id_mk_segment)

lemma attempted_simps:
  "attempted ex [] = []"
  "attempted ex (t # ts) =
     t # (case ex (turn_start t) (turn_end t) of None \<Rightarrow> attempted ex ts | Some e \<Rightarrow> [])"
  by (simp_all add: attempted_def split: option.splits)

lemma first_success_simps:
  "first_success ex [] = None"
  "first_success ex (t # ts) =
     (case ex (turn_start t) (turn_end t) of None \<Rightarrow> first_success ex ts | Some e \<Rightarrow> Some e)"
  by (auto simp add: first_success_def split: option.splits)

lemma embeddings_loop_step:
  "speaker_embeddings (loop_step ex st t) s =
     (if speaker t = s \<and> speaker_embeddings st s = None
      then ex (turn_start t) (turn_end t) else speaker_embeddings st s)"
  by (auto simp add: loop_step_def Let_def split: option.splits)

lemma calls_loop_step:
  "extract_calls (loop_step ex st t) =
     extract_calls st @ (if speaker_embeddings st (speaker t) = None then [t] else [])"
  by (simp add: loop_step_def Let_def split: option.splits)

text \<open>
  Per speaker, the loop stores the first successful extraction and calls the extraction
  on the turns up to it, whatever the other speakers do in between.
\<close>

lemma embeddings_foldl:
  "speaker_embeddings (foldl (loop_step ex) st ts) s =
     (case speaker_embeddings st s of
        Some e \<Rightarrow> Some e
      | None \<Rightarrow> first_success ex (filter (\<lambda>t. speaker t = s) ts))"
proof (induction ts arbitrary: st)
  case Nil
  then show ?case by (simp add: first_success_simps split: option.splits)
next
  case (Cons t ts)
  show ?case
    by (simp add: Cons.IH embeddings_loop_step first_success_simps split: option.splits)
qed

lemma calls_foldl:
  "filter (\<lambda>t. speaker t = s) (extract_calls (foldl (loop_step ex) st ts)) =
     filter (\<lambda>t. speaker t = s) (extract_calls st) @
     (case speaker_embeddings st s of
        Some e \<Rightarrow> []
      | None \<Rightarrow> attempted ex (filter (\<lambda>t. speaker t = s) ts))"
proof (induction ts arbitrary: st)
  case Nil
  then show ?case by (simp add: attempted_simps split: option.splits)
next
  case (Cons t ts)
  show ?case
    by (auto simp add: Cons.IH embeddings_loop_step calls_loop_step attempted_simps
        split: option.splits)
qed

lemma embeddings_run_loop:
  "speaker_embeddings (run_loop ex ts) s = first_success ex (filter (\<lambda>t. speaker t = s) ts)"
  by (simp add: run_loop_def embeddings_foldl init_state_def)

lemma calls_run_loop:
  "filter (\<lambda>t. speaker t = s) (extract_calls (run_loop ex ts)) =
     attempted ex (filter (\<lambda>t. speaker t = s) ts)"
  by (simp add: run_loop_def calls_foldl init_state_def)

section \<open>The second loop\<close>

lemma dict_set_fresh: "k \<notin> fst ` set d \<Longrightarrow> dict_set d k v = d @ [(k, v)]"
  by (induction d) auto

lemma foldl_dict_set:
  "distinct ks \<Longrightarrow> set ks \<inter> fst ` set d = {} \<Longrightarrow>
   foldl (\<lambda>d sp. dict_set d sp (f sp)) d ks = d @ map (\<lambda>k. (k, f k)) ks"
proof (induction ks arbitrary: d)
  case Nil
  then show ?case by simp
next
  case (Cons k ks)
  from Cons.prems have fresh: "k \<notin> fst ` set d" by auto
  have "set ks \<inter> fst ` set (d @ [(k, f k)]) = {}"
    using Cons.prems by auto
  with Cons.IH [of "d @ [(k, f k)]"] Cons.prems fresh show ?case
    by (simp add: dict_set_fresh)
qed

lemma map_of_stats: "k \<in> set ks \<Longrightarrow> map_of (map (\<lambda>k. (k, f k)) ks) k = Some (f k)"
  by (induction ks) auto

lemma stat_of_counts:
  "num_segments (stat_of (map mk_segment ts) embs sp) = length (filter (\<lambda>t. speaker t = sp) ts)"
  "total_duration (stat_of (map mk_segment ts) embs sp) =
     (\<Sum>t\<leftarrow>filter (\<lambda>t. speaker t = sp) ts. turn_end t - turn_start t)"
  "embedding (stat_of sgs embs sp) = (case embs sp of None \<Rightarrow> [] | Some e \<Rightarrow> e)"
  by (simp_all add: stat_of_def Let_def filter_mk_segment comp_def duration_mk_segment)

lemma set_iterationD:
  "set_iteration list_set \<Longrightarrow> distinct (list_set xs)"
  "set_iteration list_set \<Longrightarrow> set (list_set xs) = set xs"
  by (simp_all add: set_iteration_def)

lemma set_iteration_remdups: "set_iteration remdups"
  by (simp add: set_iteration_def)

section \<open>The returned dictionary\<close>

lemma diarize_audio_unfold:
  "set_iteration list_set \<Longrightarrow>
   diarize_audio list_set load em ts =
     Inr \<lparr>segments = map mk_segment ts,
          speakers = list_set (map speaker ts),
          num_speakers = length (list_set (map speaker ts)),
          speaker_stats =
            map (\<lambda>sp. (sp, stat_of (map mk_segment ts)
                   (speaker_embeddings (run_loop (extract_speaker_embedding load em) ts)) sp))
              (list_set (map speaker ts))\<rparr>"
  by (simp add: diarize_audio_def Let_def segs_run_loop speaker_id_comp_mk_segment
      foldl_dict_set set_iteration_def)

lemma diarize_audio_fields:
  assumes "set_iteration list_set"
  shows "\<exists>r. diarize_audio list_set load em ts = Inr r \<and>
           segments r = map mk_segment ts \<and>
           speakers r = list_set (map speaker ts) \<and>
           num_speakers r = length (list_set (map speaker ts)) \<and>
           map fst (speaker_stats r) = list_set (map speaker ts) \<and>
           (\<forall>sp \<in> set (map speaker ts). map_of (speaker_stats r) sp =
              Some (stat_of (map mk_segment ts)
                (speaker_embeddings (run_loop (extract_speaker_embedding load em) ts)) sp))"
proof -
  from assms have s: "set (list_set (map speaker ts)) = set (map speaker ts)"
    by (simp add: set_iteration_def)
  show ?thesis
    unfolding diarize_audio_unfold [OF assms]
    using s by (simp add: comp_def map_of_stats)
qed

lemma embedding_of_speaker:
  assumes "set_iteration list_set" and "s \<in> set (map speaker tracks)"
  shows "\<exists>r st. diarize_audio list_set load em tracks = Inr r \<and>
           map_of (speaker_stats r) s = Some st \<and>
           embedding st =
             (case first_success (extract_speaker_embedding load em)
                     (filter (\<lambda>t. speaker t = s) tracks) of
                None \<Rightarrow> [] | Some e \<Rightarrow> e) \<and>
           num_segments st = length (filter (\<lambda>t. speaker t = s) tracks) \<and>
           total_duration st =
             (\<Sum>t\<leftarrow>filter (\<lambda>t. speaker t = s) tracks. turn_end t - turn_start t)"
proof -
  from diarize_audio_fields [OF assms(1), of load em tracks]
  obtain r where r: "diarize_audio list_set load em tracks = Inr r"
    and st: "\<forall>sp \<in> set (map speaker tracks). map_of (speaker_stats r) sp =
              Some (stat_of (map mk_segment tracks)
                (speaker_embeddings (run_loop (extract_speaker_embedding load em) tracks)) sp)"
    by blast
  from st assms(2) have "map_of (speaker_stats r) s =
      Some (stat_of (map mk_segment tracks)
        (speaker_embeddings (run_loop (extract_speaker_embedding load em) tracks)) s)"
    by blast
  with r show ?thesis
    by (simp add: stat_of_counts embeddings_run_loop)
qed

lemma retry_extract_values:
  "extract_speaker_embedding two_sample_load second_sample_model 0 1 = None"
  "extract_speaker_embedding two_sample_load second_sample_model 1 2 = Some [7]"
  by (simp_all add: two_sample_load_def second_sample_model_def extract_speaker_embedding_def
      py_int_def py_slice_def slice_index_def Let_def)

lemma short_extract_value:
  "extract_speaker_embedding slow_load sample_count_model 5 (101 / 20) = Some [1]"
  by (simp add: slow_load_def sample_count_model_def extract_speaker_embedding_def
      py_int_def py_slice_def slice_index_def Let_def)

section \<open>Claims about the returned dictionary\<close>

text \<open>
  C1. Whatever the tracks are, the keys of \<^verbatim>\<open>speaker_stats\<close>, the \<^verbatim>\<open>speakers\<close> list and the
  \<^verbatim>\<open>speaker_id\<close> values of \<^verbatim>\<open>segments\<close> are the same set, and neither the keys nor the list
  repeat a speaker. Nothing is assumed about the order of the tracks, so a speaker may
  come back after a gap.
\<close>

theorem speaker_stats_keys_bijection:
  assumes "set_iteration list_set"
  shows "\<exists>r. diarize_audio list_set load embedding_model tracks = Inr r \<and>
           set (map fst (speaker_stats r)) = set (speakers r) \<and>
           set (speakers r) = set (map speaker_id (segments r)) \<and>
           distinct (map fst (speaker_stats r)) \<and> distinct (speakers r)"
proof -
  from diarize_audio_fields [OF assms, of load embedding_model tracks]
  obtain r where r: "diarize_audio list_set load embedding_model tracks = Inr r"
    and sg: "segments r = map mk_segment tracks"
    and sp: "speakers r = list_set (map speaker tracks)"
    and ks: "map fst (speaker_stats r) = list_set (map speaker tracks)"
    by blast
  have ids: "map speaker_id (segments r) = map speaker tracks"
    by (simp add: sg speaker_id_comp_mk_segment)
  have k: "map fst (speaker_stats r) = speakers r"
    by (simp only: ks sp)
  have a: "set (speakers r) = set (map speaker_id (segments r))"
    by (simp only: sp ids set_iterationD(2) [OF assms])
  have b: "distinct (speakers r)"
    by (simp only: sp set_iterationD(1) [OF assms])
  show ?thesis
    by (intro exI [of _ r] conjI) (simp_all only: r k a b)
qed

theorem speaker_stats_keys_bijection_witness:
  "set_iteration remdups \<and>
   (\<exists>r. diarize_audio remdups None silent_model scenario_tracks = Inr r \<and>
        speakers r = [''B'', ''A''] \<and>
        map speaker_id (segments r) = [''A'', ''B'', ''A''] \<and>
        set (map fst (speaker_stats r)) = set (speakers r) \<and>
        set (speakers r) = set (map speaker_id (segments r)) \<and>
        distinct (map fst (speaker_stats r)) \<and> distinct (speakers r))"
proof -
  have ok: "set_iteration remdups"
    by (simp add: set_iteration_def)
  from speaker_stats_keys_bijection [OF ok, of None silent_model scenario_tracks]
  obtain r where r: "diarize_audio remdups None silent_model scenario_tracks = Inr r"
    and p: "set (map fst (speaker_stats r)) = set (speakers r)"
      "set (speakers r) = set (map speaker_id (segments r))"
      "distinct (map fst (speaker_stats r))" "distinct (speakers r)"
    by blast
  from r have v: "speakers r = [''B'', ''A'']"
    "map speaker_id (segments r) = [''A'', ''B'', ''A'']"
    by (auto simp add: diarize_audio_unfold [OF ok] scenario_tracks_def mk_segment_def)
  show ?thesis
    by (intro conjI exI [of _ r]) (rule ok r p v)+
qed



text \<open>
  C3, as stated, fails: \<^verbatim>\<open>diarize_audio\<close> does not validate the turns. The turn with
  \<open>start = 10\<close> and \<open>end = 4\<close> is structurally invalid, and the call returns a result in
  which it counts with the duration \<open>-6\<close>.
\<close>

theorem reversed_turn_accepted:
  "invalid_turn reversed_track \<and>
   diarize_audio remdups None silent_model [reversed_track] =
     Inr \<lparr>segments = [\<lparr>speaker_id = ''A'', start = 10, end_ = 4, duration = - 6\<rparr>],
          speakers = [''A''], num_speakers = 1,
          speaker_stats = [(''A'', \<lparr>total_duration = - 6, num_segments = 1, embedding = []\<rparr>)]\<rparr>"
  by (simp add: invalid_turn_def reversed_track_def diarize_audio_def run_loop_def
      init_state_def loop_step_def mk_segment_def extract_speaker_embedding_def stat_of_def
      Let_def)

text \<open>
  C3, amended: \<^verbatim>\<open>diarize_audio\<close> fails on no input. Every turn, structurally valid or not,
  becomes a segment whose duration is \<open>end - start\<close>.
\<close>

theorem diarize_audio_never_fails:
  "\<exists>r. diarize_audio list_set load embedding_model tracks = Inr r \<and>
        segments r = map mk_segment tracks \<and>
        map duration (segments r) = map (\<lambda>t. turn_end t - turn_start t) tracks"
  by (simp add: diarize_audio_def Let_def segs_run_loop comp_def duration_mk_segment)

text \<open>
  C9, as stated, fails: the \<^verbatim>\<open>speakers\<close> list is \<^verbatim>\<open>list(set(...))\<close>, whose order is the
  iteration order of the set. Under the iteration order \<open>remdups\<close> the scenario, where A is
  seen first, returns B before A.
\<close>

theorem speakers_not_first_seen:
  "set_iteration remdups \<and>
   first_seen (map speaker scenario_tracks) = [''A'', ''B''] \<and>
   speakers (projr (diarize_audio remdups None silent_model scenario_tracks)) = [''B'', ''A'']"
  by (simp add: set_iteration_remdups diarize_audio_unfold scenario_tracks_def)

text \<open>
  C9, amended: the segments are the turns in input order; the keys of \<^verbatim>\<open>speaker_stats\<close>
  iterate in the order of the \<^verbatim>\<open>speakers\<close> list; and that list holds every speaker of the
  input once, in the iteration order of the set.
\<close>

theorem result_orders:
  assumes "set_iteration list_set"
  shows "\<exists>r. diarize_audio list_set load embedding_model tracks = Inr r \<and>
           segments r = map mk_segment tracks \<and>
           map fst (speaker_stats r) = speakers r \<and>
           distinct (speakers r) \<and>
           set (speakers r) = set (map speaker tracks)"
proof -
  from diarize_audio_fields [OF assms, of load embedding_model tracks]
  obtain r where r: "diarize_audio list_set load embedding_model tracks = Inr r"
    and sg: "segments r = map mk_segment tracks"
    and sp: "speakers r = list_set (map speaker tracks)"
    and ks: "map fst (speaker_stats r) = list_set (map speaker tracks)"
    by blast
  have k: "map fst (speaker_stats r) = speakers r"
    by (simp only: ks sp)
  have d: "distinct (speakers r)"
    by (simp only: sp set_iterationD(1) [OF assms])
  have s: "set (speakers r) = set (map speaker tracks)"
    by (simp only: sp set_iterationD(2) [OF assms])
  show ?thesis
    by (intro exI [of _ r] conjI) (rule r sg k d s)+
qed

theorem result_orders_witness:
  "set_iteration remdups \<and>
   (\<exists>r. diarize_audio remdups None silent_model scenario_tracks = Inr r \<and>
        segments r = map mk_segment scenario_tracks \<and>
        map fst (speaker_stats r) = speakers r \<and>
        speakers r = [''B'', ''A''] \<and>
        distinct (speakers r) \<and>
        set (speakers r) = set (map speaker scenario_tracks))"
proof -
  have ok: "set_iteration remdups"
    by (simp add: set_iteration_def)
  from result_orders [OF ok, of None silent_model scenario_tracks]
  obtain r where r: "diarize_audio remdups None silent_model scenario_tracks = Inr r"
    and p: "segments r = map mk_segment scenario_tracks"
      "map fst (speaker_stats r) = speakers r" "distinct (speakers r)"
      "set (speakers r) = set (map speaker scenario_tracks)"
    by blast
  from r have v: "speakers r = [''B'', ''A'']"
    by (auto simp add: diarize_audio_unfold [OF ok] scenario_tracks_def)
  show ?thesis
    by (intro conjI exI [of _ r]) (rule ok r p v)+
qed

text \<open>
  C10. In every result \<^verbatim>\<open>num_speakers\<close> is the length of \<^verbatim>\<open>speakers\<close>, which is the number of
  keys of \<^verbatim>\<open>speaker_stats\<close> (the keys do not repeat); without tracks all three are zero.
\<close>

theorem consistent_counts:
  assumes "set_iteration list_set"
  shows "\<exists>r. diarize_audio list_set load embedding_model tracks = Inr r \<and>
           num_speakers r = length (speakers r) \<and>
           length (speakers r) = length (map fst (speaker_stats r)) \<and>
           distinct (map fst (speaker_stats r)) \<and>
           (tracks = [] \<longrightarrow> num_speakers r = 0 \<and> speakers r = [] \<and> speaker_stats r = [])"
proof -
  from diarize_audio_fields [OF assms, of load embedding_model tracks]
  obtain r where r: "diarize_audio list_set load embedding_model tracks = Inr r"
    and sp: "speakers r = list_set (map speaker tracks)"
    and n: "num_speakers r = length (list_set (map speaker tracks))"
    and ks: "map fst (speaker_stats r) = list_set (map speaker tracks)"
    by blast
  have e: "list_set [] = []"
    using set_iterationD(2) [OF assms, of "[]"] by simp
  have d: "distinct (map fst (speaker_stats r))"
    by (simp only: ks set_iterationD(1) [OF assms])
  have l: "length (speakers r) = length (map fst (speaker_stats r))"
    by (simp only: ks sp)
  have z: "tracks = [] \<longrightarrow> num_speakers r = 0 \<and> speakers r = [] \<and> speaker_stats r = []"
  proof
    assume "tracks = []"
    with sp n ks e have "speakers r = []" "num_speakers r = 0" "map fst (speaker_stats r) = []"
      by simp_all
    then show "num_speakers r = 0 \<and> speakers r = [] \<and> speaker_stats r = []"
      by simp
  qed
  have m: "num_speakers r = length (speakers r)"
    by (simp only: n sp)
  show ?thesis
    by (intro exI [of _ r] conjI) (rule r m l d z)+
qed

theorem consistent_counts_witness:
  "set_iteration remdups \<and>
   (\<exists>r. diarize_audio remdups None silent_model [] = Inr r \<and> num_speakers r = 0 \<and>
        speakers r = [] \<and> speaker_stats r = []) \<and>
   (\<exists>r. diarize_audio remdups None silent_model scenario_tracks = Inr r \<and>
        num_speakers r = 2 \<and> length (speakers r) = 2 \<and>
        length (map fst (speaker_stats r)) = 2 \<and> distinct (map fst (speaker_stats r)))"
proof -
  have ok: "set_iteration remdups"
    by (simp add: set_iteration_def)
  from consistent_counts [OF ok, of None silent_model "[]"]
  have a: "\<exists>r. diarize_audio remdups None silent_model [] = Inr r \<and> num_speakers r = 0 \<and>
        speakers r = [] \<and> speaker_stats r = []"
    by blast
  from consistent_counts [OF ok, of None silent_model scenario_tracks]
  obtain r where r: "diarize_audio remdups None silent_model scenario_tracks = Inr r"
    and p: "num_speakers r = length (speakers r)"
       "length (speakers r) = length (map fst (speaker_stats r))"
       "distinct (map fst (speaker_stats r))"
    by blast
  from r have "num_speakers r = 2"
    by (auto simp add: diarize_audio_unfold [OF ok] scenario_tracks_def)
  with p r have "\<exists>r. diarize_audio remdups None silent_model scenario_tracks = Inr r \<and>
        num_speakers r = 2 \<and> length (speakers r) = 2 \<and>
        length (map fst (speaker_stats r)) = 2 \<and> distinct (map fst (speaker_stats r))"
    by auto
  with ok a show ?thesis by blast
qed

section \<open>Claims about the extraction of embeddings\<close>

text \<open>
  C4, as stated, fails: an embedding is stored only when the extraction succeeds, and the
  loop tests \<^verbatim>\<open>speaker not in speaker_embeddings\<close>, so after a failure the extraction is
  called again on the next turn of the speaker. Here it fails on the first turn of A,
  is called on both turns, and A ends with the embedding of the second.
\<close>

theorem retry_after_failure:
  "extract_speaker_embedding two_sample_load second_sample_model 0 1 = None \<and>
   extraction_calls two_sample_load second_sample_model retry_tracks =
     [\<lparr>turn_start = 0, turn_end = 1, speaker = ''A''\<rparr>,
      \<lparr>turn_start = 1, turn_end = 2, speaker = ''A''\<rparr>] \<and>
   diarize_audio remdups two_sample_load second_sample_model retry_tracks =
     Inr \<lparr>segments =
            [\<lparr>speaker_id = ''A'', start = 0, end_ = 1, duration = 1\<rparr>,
             \<lparr>speaker_id = ''A'', start = 1, end_ = 2, duration = 1\<rparr>],
          speakers = [''A''], num_speakers = 1,
          speaker_stats = [(''A'', \<lparr>total_duration = 2, num_segments = 2, embedding = [7]\<rparr>)]\<rparr>"
  by (simp add: two_sample_load_def second_sample_model_def retry_tracks_def
      extraction_calls_def diarize_audio_def run_loop_def init_state_def loop_step_def
      mk_segment_def extract_speaker_embedding_def stat_of_def py_int_def py_slice_def
      slice_index_def Let_def)

text \<open>
  C4, amended: for every speaker, the extraction is called on the turns of the speaker in
  input order, from the first one up to and including the first on which it succeeds,
  and on no later turn; the embedding of the speaker is the one of that first success,
  and is empty only when the extraction failed on every turn of the speaker.
\<close>

theorem extraction_until_first_success:
  assumes "set_iteration list_set" and "s \<in> set (map speaker tracks)"
  shows "filter (\<lambda>t. speaker t = s) (extraction_calls load embedding_model tracks) =
           attempted (extract_speaker_embedding load embedding_model)
             (filter (\<lambda>t. speaker t = s) tracks) \<and>
         (\<exists>r st. diarize_audio list_set load embedding_model tracks = Inr r \<and>
            map_of (speaker_stats r) s = Some st \<and>
            embedding st =
              (case first_success (extract_speaker_embedding load embedding_model)
                      (filter (\<lambda>t. speaker t = s) tracks) of
                 None \<Rightarrow> [] | Some e \<Rightarrow> e))"
proof
  show "filter (\<lambda>t. speaker t = s) (extraction_calls load embedding_model tracks) =
           attempted (extract_speaker_embedding load embedding_model)
             (filter (\<lambda>t. speaker t = s) tracks)"
    by (simp add: extraction_calls_def calls_run_loop)
  from embedding_of_speaker [OF assms, of load embedding_model]
  show "\<exists>r st. diarize_audio list_set load embedding_model tracks = Inr r \<and>
            map_of (speaker_stats r) s = Some st \<and>
            embedding st =
              (case first_success (extract_speaker_embedding load embedding_model)
                      (filter (\<lambda>t. speaker t = s) tracks) of
                 None \<Rightarrow> [] | Some e \<Rightarrow> e)"
    by blast
qed

theorem extraction_until_first_success_witness:
  "set_iteration remdups \<and> ''A'' \<in> set (map speaker retry_tracks) \<and>
   filter (\<lambda>t. speaker t = ''A'') (extraction_calls two_sample_load second_sample_model retry_tracks)
     = retry_tracks \<and>
   (\<exists>r st. diarize_audio remdups two_sample_load second_sample_model retry_tracks = Inr r \<and>
      map_of (speaker_stats r) ''A'' = Some st \<and> embedding st = [7])"
proof -
  have ok: "set_iteration remdups"
    by (simp add: set_iteration_def)
  have inA: "''A'' \<in> set (map speaker retry_tracks)"
    by (simp add: retry_tracks_def)
  have f: "filter (\<lambda>t. speaker t = ''A'') retry_tracks = retry_tracks"
    by (simp add: retry_tracks_def)
  have a: "attempted (extract_speaker_embedding two_sample_load second_sample_model) retry_tracks
      = retry_tracks"
    by (simp add: retry_tracks_def attempted_simps retry_extract_values)
  have b: "first_success (extract_speaker_embedding two_sample_load second_sample_model)
      retry_tracks = Some [7]"
    by (simp add: retry_tracks_def first_success_simps retry_extract_values)
  from extraction_until_first_success [OF ok inA, of two_sample_load second_sample_model]
  show ?thesis
    using ok inA by (simp add: f a b)
qed

text \<open>
  C5, as stated, fails: \<^verbatim>\<open>_extract_speaker_embedding\<close> has no minimum window. For the only
  turn \<^verbatim>\<open>("A", 5, 5.05)\<close> at 20 Hz the span is one sample, below the two samples of 0.1 s;
  the model is called on that sample and its answer becomes the embedding of A.
\<close>

theorem short_span_is_extracted:
  "py_int (turn_end short_track * 20) - py_int (turn_start short_track * 20) = 1 \<and>
   py_int (0.1 * 20) = 2 \<and>
   diarize_audio remdups slow_load sample_count_model [short_track] =
     Inr \<lparr>segments = [\<lparr>speaker_id = ''A'', start = 5, end_ = 5.05, duration = 0.05\<rparr>],
          speakers = [''A''], num_speakers = 1,
          speaker_stats =
            [(''A'', \<lparr>total_duration = 0.05, num_segments = 1, embedding = [1]\<rparr>)]\<rparr>"
  by (simp add: short_track_def diarize_audio_def run_loop_def init_state_def loop_step_def
      mk_segment_def stat_of_def short_extract_value py_int_def Let_def)

text \<open>
  C5, amended: the extraction is called on the first turn of every speaker whatever its
  span; when it returns an embedding for that turn, this is the embedding of the speaker;
  and \<^verbatim>\<open>total_duration\<close> and \<^verbatim>\<open>num_segments\<close> account for the turns of the speaker as usual.
\<close>

theorem first_turn_extracted_whatever_span:
  assumes "set_iteration list_set"
    and "tracks = before @ t # rest"
    and "speaker t \<notin> set (map speaker before)"
  shows "t \<in> set (extraction_calls load embedding_model tracks) \<and>
         (\<exists>r st. diarize_audio list_set load embedding_model tracks = Inr r \<and>
            map_of (speaker_stats r) (speaker t) = Some st \<and>
            (\<forall>e. extract_speaker_embedding load embedding_model (turn_start t) (turn_end t)
                   = Some e \<longrightarrow> embedding st = e) \<and>
            num_segments st = length (filter (\<lambda>u. speaker u = speaker t) tracks) \<and>
            total_duration st =
              (\<Sum>u\<leftarrow>filter (\<lambda>u. speaker u = speaker t) tracks. turn_end u - turn_start u))"
proof
  have none: "filter (\<lambda>u. speaker u = speaker t) before = []"
    using assms(3) by (induction before) auto
  have f: "filter (\<lambda>u. speaker u = speaker t) tracks =
      t # filter (\<lambda>u. speaker u = speaker t) rest"
    by (simp add: assms(2) none)
  have "t \<in> set (filter (\<lambda>u. speaker u = speaker t)
      (extraction_calls load embedding_model tracks))"
    by (simp only: extraction_calls_def calls_run_loop f attempted_simps) simp
  then show "t \<in> set (extraction_calls load embedding_model tracks)"
    by simp
  have mem: "speaker t \<in> set (map speaker tracks)"
    by (simp add: assms(2))
  from embedding_of_speaker [OF assms(1) mem, of load embedding_model]
  show "\<exists>r st. diarize_audio list_set load embedding_model tracks = Inr r \<and>
            map_of (speaker_stats r) (speaker t) = Some st \<and>
            (\<forall>e. extract_speaker_embedding load embedding_model (turn_start t) (turn_end t)
                   = Some e \<longrightarrow> embedding st = e) \<and>
            num_segments st = length (filter (\<lambda>u. speaker u = speaker t) tracks) \<and>
            total_duration st =
              (\<Sum>u\<leftarrow>filter (\<lambda>u. speaker u = speaker t) tracks. turn_end u - turn_start u)"
    by (auto simp add: f first_success_simps)
qed

theorem first_turn_extracted_whatever_span_witness:
  "set_iteration remdups \<and> [short_track] = [] @ short_track # [] \<and>
   speaker short_track \<notin> set (map speaker []) \<and>
   extract_speaker_embedding slow_load sample_count_model
     (turn_start short_track) (turn_end short_track) = Some [1] \<and>
   short_track \<in> set (extraction_calls slow_load sample_count_model [short_track]) \<and>
   (\<exists>r st. diarize_audio remdups slow_load sample_count_model [short_track] = Inr r \<and>
      map_of (speaker_stats r) (speaker short_track) = Some st \<and>
      embedding st = [1] \<and> num_segments st = 1 \<and> total_duration st = 0.05)"
proof -
  have ok: "set_iteration remdups"
    by (simp add: set_iteration_def)
  have sp: "[short_track] = [] @ short_track # []"
    by simp
  have fresh: "speaker short_track \<notin> set (map speaker [])"
    by simp
  have v: "extract_speaker_embedding slow_load sample_count_model
      (turn_start short_track) (turn_end short_track) = Some [1]"
    by (simp add: short_track_def short_extract_value)
  have d: "turn_end short_track - turn_start short_track = 0.05"
    by (simp add: short_track_def)
  from first_turn_extracted_whatever_span [OF ok sp fresh, of slow_load sample_count_model]
  show ?thesis
    using ok v d by auto
qed

section \<open>Rounding to binary64\<close>

lemma pow2_powr: "pow2 k = 2 powr of_int k"
  by (simp add: pow2_def powr_int)

lemma pow2_pos: "0 < pow2 k"
  by (simp add: pow2_def)

lemma pow2_mono: "a \<le> b \<Longrightarrow> pow2 a \<le> pow2 b"
  by (simp add: pow2_powr)

lemma rne_close:
  assumes "\<bar>x - of_int m\<bar> < 1 / 2"
  shows "rne x = m"
proof (cases "of_int m \<le> x")
  case True
  with assms have "\<lfloor>x\<rfloor> = m"
    by (intro floor_unique) (simp_all add: abs_less_iff)
  with assms True show ?thesis
    by (simp add: rne_def Let_def abs_less_iff)
next
  case False
  with assms have f: "\<lfloor>x\<rfloor> = m - 1"
    by (intro floor_unique) (simp_all add: abs_less_iff)
  from assms False have "\<not> x - of_int (m - 1) < 1 / 2" "1 / 2 < x - of_int (m - 1)"
    by (simp_all add: abs_less_iff)
  with f show ?thesis
    by (simp add: rne_def Let_def)
qed

lemma floor_log2:
  assumes "pow2 e \<le> x" and "x < pow2 (e + 1)"
  shows "\<lfloor>log 2 x\<rfloor> = e"
proof -
  have "0 < x"
    using assms(1) pow2_pos [of e] by linarith
  then show ?thesis
    using assms by (simp add: floor_log_eq_powr_iff pow2_powr)
qed

lemma round64_normal:
  assumes "pow2 e \<le> \<bar>x\<bar>" and "\<bar>x\<bar> < pow2 (e + 1)" and "- 1022 \<le> e"
    and "\<bar>x / pow2 (e - 52) - of_int m\<bar> < 1 / 2"
    and "\<bar>of_int m * pow2 (e - 52)\<bar> < 2 ^ 1024"
  shows "round64 x = Fin (of_int m * pow2 (e - 52))"
proof -
  have nz: "x \<noteq> 0"
    using assms(1) pow2_pos [of e] by auto
  have e: "max \<lfloor>log 2 \<bar>x\<bar>\<rfloor> (- 1022) = e"
    using floor_log2 [OF assms(1,2)] assms(3) by simp
  have r: "rne (x / pow2 (e - 52)) = m"
    by (rule rne_close [OF assms(4)])
  show ?thesis
    using nz assms(5) by (simp add: round64_def Let_def e r)
qed

lemma round64_exact:
  assumes "pow2 e \<le> \<bar>x\<bar>" and "\<bar>x\<bar> < pow2 (e + 1)" and "- 1022 \<le> e" and "e \<le> 1023"
    and "x / pow2 (e - 52) = of_int m"
  shows "round64 x = Fin x"
proof -
  have q: "pow2 (e - 52) \<noteq> 0"
    using pow2_pos [of "e - 52"] by simp
  from assms(5) q have x: "x = of_int m * pow2 (e - 52)"
    by (simp add: field_simps)
  have "pow2 (e + 1) \<le> pow2 1024"
    using assms(4) by (simp add: pow2_mono)
  moreover have "pow2 1024 = 2 ^ 1024"
    by (simp add: pow2_def)
  ultimately have "pow2 (e + 1) \<le> 2 ^ 1024"
    by (simp only:)
  with assms(2) have "\<bar>x\<bar> < 2 ^ 1024"
    by linarith
  with round64_normal [OF assms(1-3), of m] assms(5) x show ?thesis
    by simp
qed


lemma round64_0: "round64 0 = Fin 0"
  by (simp add: round64_def)

lemma round64_small_ints:
  "round64 1 = Fin 1" "round64 (- 1) = Fin (- 1)"
  "round64 2 = Fin 2" "round64 (- 2) = Fin (- 2)"
  "round64 3 = Fin 3" "round64 (- 3) = Fin (- 3)"
proof -
  show "round64 1 = Fin 1"
    by (rule round64_exact [where e = 0 and m = "2 ^ 52"]) (simp_all add: pow2_def)
  show "round64 (- 1) = Fin (- 1)"
    by (rule round64_exact [where e = 0 and m = "- (2 ^ 52)"]) (simp_all add: pow2_def)
  show "round64 2 = Fin 2"
    by (rule round64_exact [where e = 1 and m = "2 ^ 52"]) (simp_all add: pow2_def)
  show "round64 (- 2) = Fin (- 2)"
    by (rule round64_exact [where e = 1 and m = "- (2 ^ 52)"]) (simp_all add: pow2_def)
  show "round64 3 = Fin 3"
    by (rule round64_exact [where e = 1 and m = "3 * 2 ^ 51"]) (simp_all add: pow2_def)
  show "round64 (- 3) = Fin (- 3)"
    by (rule round64_exact [where e = 1 and m = "- (3 * 2 ^ 51)"]) (simp_all add: pow2_def)
qed

lemma round64_half: "round64 (1 / 2) = Fin (1 / 2)"
  by (rule round64_exact [where e = "- 1" and m = "2 ^ 52"]) (simp_all add: pow2_def)


lemma sqrt3_bounds:
  "(15600926743107923 :: real) / 2 ^ 53 < sqrt 3" "sqrt 3 < (15600926743107925 :: real) / 2 ^ 53"
proof -
  show "(15600926743107923 :: real) / 2 ^ 53 < sqrt 3"
    by (rule real_less_rsqrt) (simp add: power2_eq_square)
  show "sqrt 3 < (15600926743107925 :: real) / 2 ^ 53"
    by (rule real_less_lsqrt) (simp_all add: power2_eq_square)
qed

lemma round64_sqrt3: "round64 (sqrt 3) = Fin (7800463371553962 / 2 ^ 52)"
proof -
  have lo: "1 \<le> sqrt 3" and hi: "sqrt 3 < 2"
    using sqrt3_bounds by simp_all
  have "round64 (sqrt 3) = Fin (of_int 7800463371553962 * pow2 (0 - 52))"
  proof (rule round64_normal)
    show "pow2 0 \<le> \<bar>sqrt 3\<bar>" using lo by (simp add: pow2_def)
    show "\<bar>sqrt 3\<bar> < pow2 (0 + 1)" using hi by (simp add: pow2_def)
    show "- 1022 \<le> (0 :: int)" by simp
    show "\<bar>sqrt 3 / pow2 (0 - 52) - of_int 7800463371553962\<bar> < 1 / 2"
      using sqrt3_bounds by (simp add: pow2_def field_simps) argo
    show "\<bar>of_int 7800463371553962 * pow2 (0 - 52)\<bar> < 2 ^ 1024"
      by (simp add: pow2_def)
  qed
  then show ?thesis
    by (simp add: pow2_def)
qed

lemma round64_norm_product:
  "round64 (7800463371553962 / 2 ^ 52 * (7800463371553962 / 2 ^ 52)) =
     Fin (6755399441055743 / 2 ^ 51)"
proof -
  have "round64 (7800463371553962 / 2 ^ 52 * (7800463371553962 / 2 ^ 52)) =
      Fin (of_int 6755399441055743 * pow2 (1 - 52))"
    by (rule round64_normal) (simp_all add: pow2_def abs_less_iff)
  then show ?thesis
    by (simp add: pow2_def)
qed

lemma round64_cosine:
  "round64 (- 3 / (6755399441055743 / 2 ^ 51)) = Fin (- (4503599627370497 / 2 ^ 52))"
proof -
  have "round64 (- 3 / (6755399441055743 / 2 ^ 51)) =
      Fin (of_int (- 4503599627370497) * pow2 (0 - 52))"
    by (rule round64_normal) (simp_all add: pow2_def abs_less_iff)
  then show ?thesis
    by (simp add: pow2_def)
qed

lemma round64_tiny:
  "round64 (- (1 / 2 ^ 52)) = Fin (- (1 / 2 ^ 52))"
  "round64 (- (1 / 2 ^ 53)) = Fin (- (1 / 2 ^ 53))"
proof -
  show "round64 (- (1 / 2 ^ 52)) = Fin (- (1 / 2 ^ 52))"
    by (rule round64_exact [where e = "- 52" and m = "- (2 ^ 52)"]) (simp_all add: pow2_def)
  show "round64 (- (1 / 2 ^ 53)) = Fin (- (1 / 2 ^ 53))"
    by (rule round64_exact [where e = "- 53" and m = "- (2 ^ 52)"]) (simp_all add: pow2_def)
qed


lemma fmul_commute: "fmul a b = fmul b a"
  by (cases a; cases b) (simp_all add: mult.commute)

lemma products_commute:
  "map (\<lambda>(x, y). fmul (Fin x) (Fin y)) (zip a b) =
   map (\<lambda>(x, y). fmul (Fin x) (Fin y)) (zip b a)"
proof (induction a arbitrary: b)
  case Nil
  then show ?case by simp
next
  case (Cons x a)
  then show ?case by (cases b) (simp_all add: mult.commute)
qed

lemma dot_commute: "dot a b = dot b a"
  by (simp only: dot_def products_commute [of a b])

lemma dot_ones: "dot [1, 1, 1] [1, 1, 1] = Fin 3"
  by (simp add: dot_def round64_small_ints)

lemma dot_minus_ones: "dot [- 1, - 1, - 1] [- 1, - 1, - 1] = Fin 3"
  by (simp add: dot_def round64_small_ints)

lemma dot_opposite: "dot [1, 1, 1] [- 1, - 1, - 1] = Fin (- 3)"
  by (simp add: dot_def round64_small_ints)

lemma norm_ones:
  "linalg_norm [1, 1, 1] = Fin (7800463371553962 / 2 ^ 52)"
  "linalg_norm [- 1, - 1, - 1] = Fin (7800463371553962 / 2 ^ 52)"
  by (simp_all add: linalg_norm_def dot_ones dot_minus_ones round64_sqrt3)

lemma length_mismatch_fails:
  "length a \<noteq> length b \<Longrightarrow> compare_speakers a b = Inl ValueError"
  by (simp add: compare_speakers_def np_dot_def)

lemma orthogonal_score: "compare_speakers [1, 0, 0] [0, 1, 0] = Inr (Fin (1 / 2))"
  by (simp add: compare_speakers_def np_dot_def dot_def linalg_norm_def Let_def
      round64_0 round64_small_ints round64_half)

section \<open>Claims about the comparison\<close>

text \<open>
  C6. The comparison is to fail when the lengths differ and when a norm is zero. The first
  holds through the \<^verbatim>\<open>ValueError\<close> of \<^verbatim>\<open>np.dot\<close>. The second does not: the norms are not
  tested, and for the zero vector \<open>[0, 0]\<close> against \<open>[1, 0]\<close> the quotient is \<open>0 / 0\<close>, so
  the call returns \<open>nan\<close>, neither a failure nor the score between 0 and 1 that the
  docstring announces.
\<close>

theorem zero_norm_gives_nan:
  "compare_speakers [1] [1, 2] = Inl ValueError \<and>
   linalg_norm [0, 0] = Fin 0 \<and>
   compare_speakers [0, 0] [1, 0] = Inr NaN"
  by (simp add: compare_speakers_def np_dot_def dot_def linalg_norm_def Let_def
      round64_0 round64_small_ints)

text \<open>
  C7. The result is to lie in \<open>[0, 1]\<close> for embeddings of equal length with nonzero norms.
  For \<open>[1, 1, 1]\<close> against \<open>[-1, -1, -1]\<close> the dot product is \<open>-3\<close> and both norms are the
  double nearest to \<open>sqrt 3\<close>, whose product rounds to \<open>3 - 2 ^ -51\<close>; the quotient rounds
  to \<open>-1 - 2 ^ -52\<close>, and the result is \<open>- 2 ^ -53\<close>, below zero.
\<close>

theorem opposite_vectors_negative_score:
  "length [1, 1, 1 :: real] = length [- 1, - 1, - 1 :: real] \<and>
   linalg_norm [1, 1, 1] \<noteq> Fin 0 \<and> linalg_norm [- 1, - 1, - 1] \<noteq> Fin 0 \<and>
   compare_speakers [1, 1, 1] [- 1, - 1, - 1] = Inr (Fin (- (1 / 2 ^ 53))) \<and>
   - (1 / 2 ^ 53) < (0 :: real)"
proof -
  have p: "fmul (Fin (7800463371553962 / 2 ^ 52)) (Fin (7800463371553962 / 2 ^ 52)) =
      Fin (6755399441055743 / 2 ^ 51)"
    by (simp only: fmul.simps round64_norm_product)
  have nz: "(6755399441055743 / 2 ^ 51 :: real) \<noteq> 0"
    by simp
  have c: "fdiv (Fin (- 3)) (Fin (6755399441055743 / 2 ^ 51)) =
      Fin (- (4503599627370497 / 2 ^ 52))"
    by (simp only: fdiv.simps nz if_False round64_cosine)
  have "(- (4503599627370497 / 2 ^ 52) + 1 :: real) = - (1 / 2 ^ 52)"
    by simp
  then have a: "fadd (Fin (- (4503599627370497 / 2 ^ 52))) (Fin 1) = Fin (- (1 / 2 ^ 52))"
    by (simp only: fadd.simps round64_tiny)
  have "(- (1 / 2 ^ 52) / 2 :: real) = - (1 / 2 ^ 53)"
    by simp
  moreover have "(2 :: real) \<noteq> 0"
    by simp
  ultimately have h: "fdiv (Fin (- (1 / 2 ^ 52))) (Fin 2) = Fin (- (1 / 2 ^ 53))"
    by (simp only: fdiv.simps if_False round64_tiny)
  have d: "np_dot [1, 1, 1] [- 1, - 1, - 1] = Inr (Fin (- 3))"
    by (simp add: np_dot_def dot_opposite)
  have "compare_speakers [1, 1, 1] [- 1, - 1, - 1] = Inr (Fin (- (1 / 2 ^ 53)))"
    by (simp only: compare_speakers_def d sum.case norm_ones Let_def p c a h)
  then show ?thesis
    by (simp add: norm_ones)
qed

text \<open>
  C8. The comparison is symmetric in its arguments: both orders give the same double,
  be it a score, an infinity, \<open>nan\<close> or the error. Of the arithmetic, the proof uses only
  that the rounded multiplication is commutative.
\<close>

theorem compare_speakers_symmetric: "compare_speakers a b = compare_speakers b a"
proof (cases "length a = length b")
  case True
  then show ?thesis
    by (simp add: compare_speakers_def np_dot_def Let_def dot_commute [of a b]
        fmul_commute [of "linalg_norm a"])
next
  case False
  then show ?thesis
    by (auto simp add: compare_speakers_def np_dot_def)
qed

end
